theory Spec2Isabelle
  imports Main
begin

section \<open>The Posts resource of devConnector (routes/api/posts.js)\<close>

text \<open>
  The route handlers of \<^verbatim>\<open>routes/api/posts.js\<close> are embedded as functions from the
  request's inputs and the database to the handler's outcome and the database afterwards.
  Identifiers are the 24-digit hexadecimal strings that \<^verbatim>\<open>toString()\<close> and the \<^verbatim>\<open>id\<close>
  getter of an ObjectId return. \<^verbatim>\<open>req.user.id\<close> is the identifier the auth middleware
  decoded from the token (the server issued it from \<^verbatim>\<open>user.id\<close>), so it is stored and
  compared as it is; a route parameter is a raw string and goes through the cast of
  \<^verbatim>\<open>findById\<close>.
\<close>

subsection \<open>Identifiers\<close>

type_synonym oid = string

definition isHexDigit :: "char \<Rightarrow> bool" where
  "isHexDigit c = (c \<in> set ''0123456789abcdefABCDEF'')"

definition toLowerHex :: "char \<Rightarrow> char" where
  "toLowerHex c =
     (if c = CHR ''A'' then CHR ''a'' else if c = CHR ''B'' then CHR ''b''
      else if c = CHR ''C'' then CHR ''c'' else if c = CHR ''D'' then CHR ''d''
      else if c = CHR ''E'' then CHR ''e'' else if c = CHR ''F'' then CHR ''f'' else c)"

text \<open>
  The cast of a string to an ObjectId, which the document mapper applies to the argument
  of \<^verbatim>\<open>findById\<close>: 24 hexadecimal digits, read without regard to case. \<^verbatim>\<open>None\<close> is the
  mapper's CastError. (Some versions of the mapper also accept any 12-character string,
  which then names no document; every handler below answers a CastError and a missing
  document of that kind in the same way.)
\<close>

definition castObjectId :: "string \<Rightarrow> oid option" where
  "castObjectId s =
     (if length s = 24 \<and> list_all isHexDigit s then Some (map toLowerHex s) else None)"

subsection \<open>JavaScript array operations\<close>

text \<open>\<^verbatim>\<open>Array.prototype.indexOf\<close>: the first index of the element, or -1.\<close>

fun indexOf :: "'a list \<Rightarrow> 'a \<Rightarrow> int" where
  "indexOf [] x = - 1"
| "indexOf (y # ys) x =
     (if y = x then 0 else (let i = indexOf ys x in if i < 0 then - 1 else i + 1))"

text \<open>
  \<^verbatim>\<open>Array.prototype.splice(start, deleteCount)\<close>, the array that remains: a negative
  start counts from the end, and both arguments are clamped to the array.
\<close>

definition splice_js :: "int \<Rightarrow> int \<Rightarrow> 'a list \<Rightarrow> 'a list" where
  "splice_js start deleteCount xs =
     (let len = int (length xs);
          st = (if start < 0 then max (len + start) 0 else min start len);
          dc = min (max deleteCount 0) (len - st)
      in take (nat st) xs @ drop (nat (st + dc)) xs)"

definition unshift :: "'a \<Rightarrow> 'a list \<Rightarrow> 'a list" where
  "unshift x xs = x # xs"

subsection \<open>Documents\<close>

text \<open>
  Modelled from the spec: the schemas of \<^verbatim>\<open>models/Post\<close> and \<^verbatim>\<open>models/User\<close>, which
  are not among the sources. The fields are the ones the handlers read and write
  (\<^verbatim>\<open>user\<close>, \<^verbatim>\<open>text\<close>, \<^verbatim>\<open>name\<close>, \<^verbatim>\<open>avatar\<close>, \<^verbatim>\<open>likes\<close>, \<^verbatim>\<open>comments\<close>, and \<^verbatim>\<open>id\<close> of a
  comment) and the creation time of the spec's data model. A document of a collection
  is its \<^verbatim>\<open>_id\<close>, the key of the collection, with its fields.
\<close>

type_synonym 'a doc = "oid \<times> 'a"

record like =
  like_user :: oid

record comment =
  comment_id :: oid
  comment_user :: oid
  comment_text :: string
  comment_name :: string
  comment_avatar :: string
  comment_date :: nat

record post =
  post_user :: oid
  post_text :: string
  post_name :: string
  post_avatar :: string
  likes :: "like list"
  comments :: "comment list"
  post_date :: nat

record user =
  user_name :: string
  user_avatar :: string

record db =
  posts :: "oid \<rightharpoonup> post"
  users :: "oid \<rightharpoonup> user"

subsection \<open>Outcomes of a handler\<close>

datatype exn = CastError | TypeError | ReferenceError | MongoError

datatype body =
    Msg string
  | Errors "string list"
  | Text string
  | PostJson "post doc"
  | LikesJson "like list"
  | CommentsJson "comment list"

text \<open>
  A handler either sends a response (status and body), or its promise is rejected with
  an exception that nothing catches, and no response is sent by the handler.
\<close>

datatype outcome = Response nat body | Rejected exn

definition serverError :: outcome where
  "serverError = Response 500 (Text ''Server Error'')"

definition postNotFound :: outcome where
  "postNotFound = Response 404 (Msg ''Post not found'')"

subsection \<open>The document mapper\<close>

definition findById :: "(oid \<rightharpoonup> 'a) \<Rightarrow> string \<Rightarrow> exn + 'a doc option" where
  "findById coll s =
     (case castObjectId s of
        None \<Rightarrow> Inl CastError
      | Some k \<Rightarrow> Inr (map_option (Pair k) (coll k)))"

text \<open>\<^verbatim>\<open>save\<close> of a new document inserts it; the store refuses a duplicate identifier.\<close>

definition insert_post :: "post doc \<Rightarrow> db \<Rightarrow> exn + db" where
  "insert_post d s =
     (case posts s (fst d) of
        Some q \<Rightarrow> Inl MongoError
      | None \<Rightarrow> Inr (s\<lparr>posts := (posts s)(fst d \<mapsto> snd d)\<rparr>))"

text \<open>\<^verbatim>\<open>save\<close> of a document that was read from the store writes it back under its id.\<close>

definition save :: "post doc \<Rightarrow> db \<Rightarrow> db" where
  "save d s = s\<lparr>posts := (posts s)(fst d \<mapsto> snd d)\<rparr>"

definition remove :: "post doc \<Rightarrow> db \<Rightarrow> db" where
  "remove d s = s\<lparr>posts := (posts s)(fst d := None)\<rparr>"

subsection \<open>POST api/posts\<close>

definition create_try :: "oid \<Rightarrow> string \<Rightarrow> oid \<Rightarrow> nat \<Rightarrow> db \<Rightarrow> exn + outcome \<times> db" where
  "create_try uid txt new_id now s =
     (case findById (users s) uid of
        Inl e \<Rightarrow> Inl e
      | Inr None \<Rightarrow> Inl TypeError
      | Inr (Some (_, u)) \<Rightarrow>
          (let newPost = (new_id, \<lparr>post_user = uid, post_text = txt,
                 post_name = user_name u, post_avatar = user_avatar u,
                 likes = [], comments = [], post_date = now\<rparr>)
           in case insert_post newPost s of
                Inl e \<Rightarrow> Inl e
              | Inr s' \<Rightarrow> Inr (Response 200 (PostJson newPost), s')))"

text \<open>
  \<^verbatim>\<open>new_id\<close> is the identifier the mapper generates for the new document and \<^verbatim>\<open>now\<close>
  the clock; an absent \<^verbatim>\<open>text\<close> fails the validator as the empty one does.
\<close>

definition create_post :: "oid \<Rightarrow> string \<Rightarrow> oid \<Rightarrow> nat \<Rightarrow> db \<Rightarrow> outcome \<times> db" where
  "create_post uid txt new_id now s =
     (if txt = [] then (Response 400 (Errors [''Text is required'']), s)
      else case create_try uid txt new_id now s of
             Inl e \<Rightarrow> (serverError, s)
           | Inr r \<Rightarrow> r)"

subsection \<open>GET api/posts/:id\<close>

definition get_try :: "string \<Rightarrow> db \<Rightarrow> exn + outcome \<times> db" where
  "get_try pid s =
     (case findById (posts s) pid of
        Inl e \<Rightarrow> Inl e
      | Inr None \<Rightarrow> Inr (postNotFound, s)
      | Inr (Some d) \<Rightarrow> Inr (Response 200 (PostJson d), s))"

definition catch_cast :: "exn \<Rightarrow> outcome" where
  "catch_cast e = (if e = CastError then postNotFound else serverError)"

definition get_post :: "string \<Rightarrow> db \<Rightarrow> outcome \<times> db" where
  "get_post pid s =
     (case get_try pid s of Inl e \<Rightarrow> (catch_cast e, s) | Inr r \<Rightarrow> r)"

subsection \<open>DELETE api/posts/:id\<close>

definition delete_try :: "string \<Rightarrow> oid \<Rightarrow> db \<Rightarrow> exn + outcome \<times> db" where
  "delete_try pid uid s =
     (case findById (posts s) pid of
        Inl e \<Rightarrow> Inl e
      | Inr None \<Rightarrow> Inr (postNotFound, s)
      | Inr (Some (k, p)) \<Rightarrow>
          if post_user p \<noteq> uid then Inr (Response 401 (Msg ''User not authorized''), s)
          else Inr (Response 200 (Msg ''Post removed''), remove (k, p) s))"

definition delete_post :: "string \<Rightarrow> oid \<Rightarrow> db \<Rightarrow> outcome \<times> db" where
  "delete_post pid uid s =
     (case delete_try pid uid s of Inl e \<Rightarrow> (catch_cast e, s) | Inr r \<Rightarrow> r)"

subsection \<open>PUT api/posts/like/:id\<close>

text \<open>Reading \<^verbatim>\<open>post.likes\<close> of a post that was not found throws a TypeError.\<close>

definition like_try :: "string \<Rightarrow> oid \<Rightarrow> db \<Rightarrow> exn + outcome \<times> db" where
  "like_try pid uid s =
     (case findById (posts s) pid of
        Inl e \<Rightarrow> Inl e
      | Inr None \<Rightarrow> Inl TypeError
      | Inr (Some (k, p)) \<Rightarrow>
          if length (filter (\<lambda>l. like_user l = uid) (likes p)) > 0
          then Inr (Response 400 (Msg ''Post already liked''), s)
          else (let p' = p\<lparr>likes := unshift \<lparr>like_user = uid\<rparr> (likes p)\<rparr>
                in Inr (Response 200 (LikesJson (likes p')), save (k, p') s)))"

definition like :: "string \<Rightarrow> oid \<Rightarrow> db \<Rightarrow> outcome \<times> db" where
  "like pid uid s =
     (case like_try pid uid s of Inl e \<Rightarrow> (serverError, s) | Inr r \<Rightarrow> r)"

subsection \<open>PUT api/posts/unlike/:id\<close>

definition unlike_try :: "string \<Rightarrow> oid \<Rightarrow> db \<Rightarrow> exn + outcome \<times> db" where
  "unlike_try pid uid s =
     (case findById (posts s) pid of
        Inl e \<Rightarrow> Inl e
      | Inr None \<Rightarrow> Inl TypeError
      | Inr (Some (k, p)) \<Rightarrow>
          if length (filter (\<lambda>l. like_user l = uid) (likes p)) = 0
          then Inr (Response 400 (Msg ''Post has not yet been liked''), s)
          else (let removeIndex = indexOf (map like_user (likes p)) uid;
                    p' = p\<lparr>likes := splice_js removeIndex 1 (likes p)\<rparr>
                in Inr (Response 200 (LikesJson (likes p')), save (k, p') s)))"

definition unlike :: "string \<Rightarrow> oid \<Rightarrow> db \<Rightarrow> outcome \<times> db" where
  "unlike pid uid s =
     (case unlike_try pid uid s of Inl e \<Rightarrow> (serverError, s) | Inr r \<Rightarrow> r)"

subsection \<open>POST api/posts/comment/:id\<close>

text \<open>
  \<^verbatim>\<open>new_id\<close> is the identifier the mapper gives the new embedded comment, \<^verbatim>\<open>now\<close> the
  clock.
\<close>

definition newComment :: "oid \<Rightarrow> string \<Rightarrow> oid \<Rightarrow> nat \<Rightarrow> user \<Rightarrow> comment" where
  "newComment uid txt new_id now u =
     \<lparr>comment_id = new_id, comment_user = uid, comment_text = txt,
      comment_name = user_name u, comment_avatar = user_avatar u, comment_date = now\<rparr>"

definition add_comment_try ::
  "string \<Rightarrow> oid \<Rightarrow> string \<Rightarrow> oid \<Rightarrow> nat \<Rightarrow> db \<Rightarrow> exn + outcome \<times> db" where
  "add_comment_try pid uid txt new_id now s =
     (case findById (users s) uid of
        Inl e \<Rightarrow> Inl e
      | Inr mu \<Rightarrow>
          (case findById (posts s) pid of
             Inl e \<Rightarrow> Inl e
           | Inr mp \<Rightarrow>
               (case mu of
                  None \<Rightarrow> Inl TypeError
                | Some (_, u) \<Rightarrow>
                    (let c = newComment uid txt new_id now u
                     in case mp of
                          None \<Rightarrow> Inl TypeError
                        | Some (k, p) \<Rightarrow>
                            (let p' = p\<lparr>comments := unshift c (comments p)\<rparr>
                             in Inr (Response 200 (CommentsJson (comments p')),
                                     save (k, p') s))))))"

definition add_comment ::
  "string \<Rightarrow> oid \<Rightarrow> string \<Rightarrow> oid \<Rightarrow> nat \<Rightarrow> db \<Rightarrow> outcome \<times> db" where
  "add_comment pid uid txt new_id now s =
     (if txt = [] then (Response 400 (Errors [''Text is required'']), s)
      else case add_comment_try pid uid txt new_id now s of
             Inl e \<Rightarrow> (serverError, s)
           | Inr r \<Rightarrow> r)"

subsection \<open>DELETE api/posts/comment/:id/:comment_id\<close>

definition delete_comment_try :: "string \<Rightarrow> string \<Rightarrow> oid \<Rightarrow> db \<Rightarrow> exn + outcome \<times> db" where
  "delete_comment_try pid cid uid s =
     (case findById (posts s) pid of
        Inl e \<Rightarrow> Inl e
      | Inr None \<Rightarrow> Inl TypeError
      | Inr (Some (k, p)) \<Rightarrow>
          (case find (\<lambda>c. comment_id c = cid) (comments p) of
             None \<Rightarrow> Inr (Response 404 (Msg ''Comment does not exists''), s)
           | Some c \<Rightarrow>
               if comment_user c \<noteq> uid
               then Inr (Response 401 (Msg ''User not authorized''), s)
               else (let removeIndex = indexOf (map comment_user (comments p)) uid;
                         p' = p\<lparr>comments := splice_js removeIndex 1 (comments p)\<rparr>
                     in Inr (Response 200 (CommentsJson (comments p')), save (k, p') s))))"

text \<open>
  The handler's \<^verbatim>\<open>catch (error)\<close> block reads \<^verbatim>\<open>err.message\<close>; no \<^verbatim>\<open>err\<close> is in scope,
  so the block itself throws a ReferenceError before it sends anything.
\<close>

definition delete_comment :: "string \<Rightarrow> string \<Rightarrow> oid \<Rightarrow> db \<Rightarrow> outcome \<times> db" where
  "delete_comment pid cid uid s =
     (case delete_comment_try pid cid uid s of
        Inl e \<Rightarrow> (Rejected ReferenceError, s)
      | Inr r \<Rightarrow> r)"

subsection \<open>Sequential execution\<close>

datatype request =
    Create oid string oid nat
  | Get string
  | Delete string oid
  | Like string oid
  | Unlike string oid
  | AddComment string oid string oid nat
  | DeleteComment string string oid

fun handle :: "request \<Rightarrow> db \<Rightarrow> outcome \<times> db" where
  "handle (Create uid txt new_id now) s = create_post uid txt new_id now s"
| "handle (Get pid) s = get_post pid s"
| "handle (Delete pid uid) s = delete_post pid uid s"
| "handle (Like pid uid) s = like pid uid s"
| "handle (Unlike pid uid) s = unlike pid uid s"
| "handle (AddComment pid uid txt new_id now) s = add_comment pid uid txt new_id now s"
| "handle (DeleteComment pid cid uid) s = delete_comment pid cid uid s"

fun exec :: "request list \<Rightarrow> db \<Rightarrow> db" where
  "exec [] s = s"
| "exec (r # rs) s = exec rs (snd (handle r s))"

text \<open>At most one like of each user on every post of the store.\<close>

definition likes_unique :: "db \<Rightarrow> bool" where
  "likes_unique s = (\<forall>k p. posts s k = Some p \<longrightarrow> distinct (map like_user (likes p)))"

text \<open>A handler succeeded when it sent its result with status 200.\<close>

fun succeeded :: "outcome \<Rightarrow> bool" where
  "succeeded (Response st b) = (st = 200)"
| "succeeded (Rejected e) = False"

subsection \<open>A small database\<close>

text \<open>
  Two users, and one post of the first user that carries two comments of the second
  one, the newer comment in front.
\<close>

definition ann :: oid where "ann = ''5e00000000000000000000a1''"
definition bob :: oid where "bob = ''5e00000000000000000000b2''"
definition post1 :: oid where "post1 = ''5e00000000000000000000f1''"
definition post9 :: oid where "post9 = ''5e00000000000000000000f9''"
definition cid1 :: oid where "cid1 = ''5e00000000000000000000c1''"
definition cid2 :: oid where "cid2 = ''5e00000000000000000000c2''"

definition older :: comment where
  "older = \<lparr>comment_id = cid1, comment_user = bob, comment_text = ''first'',
            comment_name = ''Bob'', comment_avatar = ''b.png'', comment_date = 2\<rparr>"

definition newer :: comment where
  "newer = \<lparr>comment_id = cid2, comment_user = bob, comment_text = ''second'',
            comment_name = ''Bob'', comment_avatar = ''b.png'', comment_date = 3\<rparr>"

definition hello :: post where
  "hello = \<lparr>post_user = ann, post_text = ''hello'', post_name = ''Ann'',
            post_avatar = ''a.png'', likes = [], comments = [newer, older],
            post_date = 1\<rparr>"

definition people :: "oid \<rightharpoonup> user" where
  "people = [ann \<mapsto> \<lparr>user_name = ''Ann'', user_avatar = ''a.png''\<rparr>,
             bob \<mapsto> \<lparr>user_name = ''Bob'', user_avatar = ''b.png''\<rparr>]"

definition db1 :: db where
  "db1 = \<lparr>posts = [post1 \<mapsto> hello], users = people\<rparr>"

text \<open>The same database after the second user liked the post.\<close>

definition db2 :: db where
  "db2 = \<lparr>posts = [post1 \<mapsto> hello\<lparr>likes := [\<lparr>like_user = bob\<rparr>]\<rparr>], users = people\<rparr>"

section \<open>Properties\<close>

subsection \<open>Array operations\<close>

lemma indexOf_notin: "x \<notin> set xs \<Longrightarrow> indexOf xs x = - 1"
  by (induction xs) (auto simp: Let_def)

lemma indexOf_in: "x \<in> set xs \<Longrightarrow> 0 \<le> indexOf xs x \<and> indexOf xs x < int (length xs)"
  by (induction xs) (auto simp: Let_def)

text \<open>The index found is the first position that holds the element.\<close>

lemma indexOf_first:
  "x \<in> set xs \<Longrightarrow> xs ! nat (indexOf xs x) = x \<and> x \<notin> set (take (nat (indexOf xs x)) xs)"
proof (induction xs)
  case Nil
  then show ?case by simp
next
  case (Cons y ys)
  show ?case
  proof (cases "y = x")
    case True
    then show ?thesis by simp
  next
    case False
    with Cons.prems have in_ys: "x \<in> set ys" by simp
    from indexOf_in [OF in_ys] have nn: "0 \<le> indexOf ys x" by simp
    then have "nat (indexOf ys x + 1) = Suc (nat (indexOf ys x))" by simp
    with False nn Cons.IH [OF in_ys] show ?thesis by (simp add: Let_def)
  qed
qed

lemma splice_js_one:
  "0 \<le> i \<Longrightarrow> i < int (length xs) \<Longrightarrow>
   splice_js i 1 xs = take (nat i) xs @ drop (Suc (nat i)) xs"
  by (simp add: splice_js_def Let_def min_def max_def nat_add_distrib)

lemma splice_js_head: "splice_js 0 1 (x # xs) = xs"
  by (simp add: splice_js_def Let_def)

text \<open>What \<^verbatim>\<open>splice\<close> leaves is a front and a back part of the array.\<close>

lemma splice_js_distinct: "distinct (map f xs) \<Longrightarrow> distinct (map f (splice_js i d xs))"
proof -
  assume d: "distinct (map f xs)"
  define len where "len = int (length xs)"
  define st where "st = (if i < 0 then max (len + i) 0 else min i len)"
  define dc where "dc = min (max d 0) (len - st)"
  have st0: "0 \<le> st" and stl: "st \<le> len" by (auto simp: st_def len_def)
  then have "0 \<le> dc" by (auto simp: dc_def)
  with st0 have le: "nat st \<le> nat (st + dc)" by simp
  have eq: "splice_js i d xs = take (nat st) xs @ drop (nat (st + dc)) xs"
    by (simp add: splice_js_def Let_def st_def dc_def len_def)
  have "set (take (nat st) (map f xs)) \<inter> set (drop (nat (st + dc)) (map f xs)) = {}"
    using d le by (rule set_take_disj_set_drop_if_distinct)
  with d show ?thesis
    by (simp add: eq take_map drop_map) (simp add: flip: take_map drop_map)
qed

lemma liked_iff:
  "(0 < length (filter (\<lambda>l. like_user l = uid) ls)) = (uid \<in> set (map like_user ls))"
  by (auto simp: filter_empty_conv)

subsection \<open>Looking documents up\<close>

lemma findById_Some:
  "(findById coll s = Inr (Some (k, v))) = (castObjectId s = Some k \<and> coll k = Some v)"
  by (auto simp: findById_def split: option.splits)

lemma findById_None:
  "(findById coll s = Inr None) = (\<exists>k. castObjectId s = Some k \<and> coll k = None)"
  by (auto simp: findById_def split: option.splits)

lemma findById_CastError:
  "(findById coll s = Inl e) = (castObjectId s = None \<and> e = CastError)"
  by (auto simp: findById_def split: option.splits)

lemma findById_save:
  "castObjectId pid = Some k \<Longrightarrow> findById (posts (save (k, p) s)) pid = Inr (Some (k, p))"
  by (simp add: findById_def save_def)

lemma cast_examples:
  "castObjectId ann = Some ann" "castObjectId bob = Some bob"
  "castObjectId post1 = Some post1" "castObjectId post9 = Some post9"
  "castObjectId ''not-an-id'' = None"
  by (simp_all add: castObjectId_def isHexDigit_def toLowerHex_def ann_def bob_def
      post1_def post9_def)

lemma db1_lookups:
  "findById (posts db1) post1 = Inr (Some (post1, hello))"
  "findById (posts db1) post9 = Inr None"
  "findById (posts db1) ''not-an-id'' = Inl CastError"
  "findById (users db1) ann = Inr (Some (ann, \<lparr>user_name = ''Ann'', user_avatar = ''a.png''\<rparr>))"
  "findById (users db1) bob = Inr (Some (bob, \<lparr>user_name = ''Bob'', user_avatar = ''b.png''\<rparr>))"
  by (simp_all add: findById_def cast_examples db1_def people_def)
     (simp_all add: ann_def bob_def post1_def post9_def)

lemma db2_lookups:
  "findById (posts db2) post1 = Inr (Some (post1, hello\<lparr>likes := [\<lparr>like_user = bob\<rparr>]\<rparr>))"
  "findById (users db2) ann = Inr (Some (ann, \<lparr>user_name = ''Ann'', user_avatar = ''a.png''\<rparr>))"
  by (simp_all add: findById_def cast_examples db2_def people_def)
     (simp_all add: ann_def bob_def)

subsection \<open>Like and unlike\<close>

lemma like_fresh:
  assumes "findById (posts s) pid = Inr (Some (k, p))"
    and "uid \<notin> set (map like_user (likes p))"
  shows "like pid uid s =
     (Response 200 (LikesJson (\<lparr>like_user = uid\<rparr> # likes p)),
      save (k, p\<lparr>likes := \<lparr>like_user = uid\<rparr> # likes p\<rparr>) s)"
proof -
  have "\<not> 0 < length (filter (\<lambda>l. like_user l = uid) (likes p))"
    using assms(2) liked_iff [of uid "likes p"] by simp
  with assms(1) show ?thesis
    by (simp add: like_def like_try_def unshift_def Let_def)
qed

lemma like_again:
  assumes "findById (posts s) pid = Inr (Some (k, p))"
    and "uid \<in> set (map like_user (likes p))"
  shows "like pid uid s = (Response 400 (Msg ''Post already liked''), s)"
proof -
  have "0 < length (filter (\<lambda>l. like_user l = uid) (likes p))"
    using assms(2) liked_iff [of uid "likes p"] by simp
  with assms(1) show ?thesis
    by (simp add: like_def like_try_def)
qed

text \<open>
  C5: for every existing post and every user not in its likes, the first like succeeds and
  returns the likes with the user's like in front, which is what the store then holds;
  the second like answers 400 "Post already liked" and leaves the database, hence the
  length of the likes, unchanged.
\<close>

theorem like_twice:
  assumes "findById (posts s) pid = Inr (Some (k, p))"
    and "uid \<notin> set (map like_user (likes p))"
  shows "fst (like pid uid s) = Response 200 (LikesJson (\<lparr>like_user = uid\<rparr> # likes p))
     \<and> findById (posts (snd (like pid uid s))) pid
         = Inr (Some (k, p\<lparr>likes := \<lparr>like_user = uid\<rparr> # likes p\<rparr>))
     \<and> like pid uid (snd (like pid uid s))
         = (Response 400 (Msg ''Post already liked''), snd (like pid uid s))"
proof -
  let ?p' = "p\<lparr>likes := \<lparr>like_user = uid\<rparr> # likes p\<rparr>"
  have first: "like pid uid s = (Response 200 (LikesJson (likes ?p')), save (k, ?p') s)"
    using like_fresh [OF assms] by simp
  from assms(1) have cast: "castObjectId pid = Some k" by (simp add: findById_Some)
  have found: "findById (posts (save (k, ?p') s)) pid = Inr (Some (k, ?p'))"
    using cast by (rule findById_save)
  have "uid \<in> set (map like_user (likes ?p'))" by simp
  with found have "like pid uid (save (k, ?p') s)
      = (Response 400 (Msg ''Post already liked''), save (k, ?p') s)"
    by (rule like_again)
  with first found show ?thesis by simp
qed

theorem like_twice_witness:
  "findById (posts db1) post1 = Inr (Some (post1, hello))
   \<and> bob \<notin> set (map like_user (likes hello))
   \<and> fst (like post1 bob db1) = Response 200 (LikesJson [\<lparr>like_user = bob\<rparr>])
   \<and> like post1 bob (snd (like post1 bob db1))
       = (Response 400 (Msg ''Post already liked''), snd (like post1 bob db1))"
proof -
  have a: "findById (posts db1) post1 = Inr (Some (post1, hello))" by (rule db1_lookups)
  have b: "bob \<notin> set (map like_user (likes hello))" by (simp add: hello_def)
  have c: "likes hello = []" by (simp add: hello_def)
  from a b like_twice [OF a b] show ?thesis by (simp add: c)
qed

text \<open>
  C6: for every existing post and every user not in its likes, like followed by unlike of
  the same user returns the likes as they were before the like (same length, same
  members, same order), and the database is the one before the like.
\<close>

theorem like_then_unlike:
  assumes "findById (posts s) pid = Inr (Some (k, p))"
    and "uid \<notin> set (map like_user (likes p))"
  shows "fst (like pid uid s) = Response 200 (LikesJson (\<lparr>like_user = uid\<rparr> # likes p))
     \<and> unlike pid uid (snd (like pid uid s)) = (Response 200 (LikesJson (likes p)), s)"
proof -
  let ?p' = "p\<lparr>likes := \<lparr>like_user = uid\<rparr> # likes p\<rparr>"
  have first: "like pid uid s = (Response 200 (LikesJson (likes ?p')), save (k, ?p') s)"
    using like_fresh [OF assms] by simp
  from assms(1) have cast: "castObjectId pid = Some k" and stored: "posts s k = Some p"
    by (simp_all add: findById_Some)
  have found: "findById (posts (save (k, ?p') s)) pid = Inr (Some (k, ?p'))"
    using cast by (rule findById_save)
  have undone: "save (k, p) (save (k, ?p') s) = s"
    using stored by (simp add: save_def map_upd_triv)
  have "unlike pid uid (save (k, ?p') s) = (Response 200 (LikesJson (likes p)), s)"
    using found undone by (simp add: unlike_def unlike_try_def Let_def splice_js_head)
  with first show ?thesis by simp
qed

theorem like_then_unlike_witness:
  "findById (posts db1) post1 = Inr (Some (post1, hello))
   \<and> ann \<notin> set (map like_user (likes hello))
   \<and> fst (like post1 ann db1) = Response 200 (LikesJson [\<lparr>like_user = ann\<rparr>])
   \<and> unlike post1 ann (snd (like post1 ann db1)) = (Response 200 (LikesJson []), db1)"
proof -
  have a: "findById (posts db1) post1 = Inr (Some (post1, hello))" by (rule db1_lookups)
  have b: "ann \<notin> set (map like_user (likes hello))" by (simp add: hello_def)
  have c: "likes hello = []" by (simp add: hello_def)
  from a b like_then_unlike [OF a b] show ?thesis by (simp add: c)
qed

text \<open>
  C7: for every existing post and every user whose id is absent from its likes, the
  unlike handler answers 400 with the message that the post has not yet been liked, and
  the database (hence the post's likes) is unchanged.
\<close>

theorem unlike_not_liked:
  assumes "findById (posts s) pid = Inr (Some (k, p))"
    and "uid \<notin> set (map like_user (likes p))"
  shows "unlike pid uid s = (Response 400 (Msg ''Post has not yet been liked''), s)"
proof -
  from assms(2) have "length (filter (\<lambda>l. like_user l = uid) (likes p)) = 0"
    using liked_iff [of uid "likes p"] by simp
  with assms(1) show ?thesis
    by (simp add: unlike_def unlike_try_def)
qed

theorem unlike_not_liked_witness:
  "findById (posts db1) post1 = Inr (Some (post1, hello))
   \<and> bob \<notin> set (map like_user (likes hello))
   \<and> unlike post1 bob db1 = (Response 400 (Msg ''Post has not yet been liked''), db1)"
proof -
  have a: "findById (posts db1) post1 = Inr (Some (post1, hello))" by (rule db1_lookups)
  have b: "bob \<notin> set (map like_user (likes hello))" by (simp add: hello_def)
  from a b unlike_not_liked [OF a b] show ?thesis by simp
qed

subsection \<open>Deleting a post\<close>

text \<open>
  C8: for every existing post, delete by a requester other than the post's author answers
  401 and leaves the database unchanged; delete by the author answers 200, and get of the
  same id afterwards answers 404 "Post not found".
\<close>

theorem delete_by_author_only:
  assumes "findById (posts s) pid = Inr (Some (k, p))"
  shows "(uid \<noteq> post_user p \<longrightarrow>
            delete_post pid uid s = (Response 401 (Msg ''User not authorized''), s))
     \<and> fst (delete_post pid (post_user p) s) = Response 200 (Msg ''Post removed'')
     \<and> get_post pid (snd (delete_post pid (post_user p) s))
         = (Response 404 (Msg ''Post not found''), snd (delete_post pid (post_user p) s))"
proof -
  from assms have cast: "castObjectId pid = Some k" by (simp add: findById_Some)
  have gone: "findById (posts (remove (k, p) s)) pid = Inr None"
    using cast by (simp add: findById_def remove_def)
  have del: "delete_post pid (post_user p) s = (Response 200 (Msg ''Post removed''), remove (k, p) s)"
    using assms by (simp add: delete_post_def delete_try_def)
  have "get_post pid (remove (k, p) s) = (Response 404 (Msg ''Post not found''), remove (k, p) s)"
    using gone by (simp add: get_post_def get_try_def postNotFound_def)
  moreover have "uid \<noteq> post_user p \<longrightarrow>
      delete_post pid uid s = (Response 401 (Msg ''User not authorized''), s)"
    using assms by (auto simp add: delete_post_def delete_try_def)
  ultimately show ?thesis using del by simp
qed

theorem delete_by_author_only_witness:
  "findById (posts db1) post1 = Inr (Some (post1, hello))
   \<and> bob \<noteq> post_user hello
   \<and> delete_post post1 bob db1 = (Response 401 (Msg ''User not authorized''), db1)
   \<and> fst (delete_post post1 ann db1) = Response 200 (Msg ''Post removed'')
   \<and> fst (get_post post1 (snd (delete_post post1 ann db1)))
       = Response 404 (Msg ''Post not found'')"
proof -
  have a: "findById (posts db1) post1 = Inr (Some (post1, hello))" by (rule db1_lookups)
  have b: "bob \<noteq> post_user hello" by (simp add: hello_def ann_def bob_def)
  have c: "post_user hello = ann" by (simp add: hello_def)
  from a b delete_by_author_only [OF a, of bob] show ?thesis by (simp add: c)
qed

subsection \<open>Comments\<close>

text \<open>
  C9: for every existing post, add_comment puts the new comment in front: after a first
  comment and then a second one, the second is at index 0 and the first at index 1 of the
  comments, before the comments the post had; each call returns the whole updated
  sequence, which is what the store then holds.
\<close>

theorem add_comment_prepends:
  assumes "findById (posts s) pid = Inr (Some (k, p))"
    and "findById (users s) uid1 = Inr (Some (k1, u1))"
    and "findById (users s) uid2 = Inr (Some (k2, u2))"
    and "txt1 \<noteq> []" and "txt2 \<noteq> []"
  shows "fst (add_comment pid uid1 txt1 id1 t1 s)
           = Response 200 (CommentsJson (newComment uid1 txt1 id1 t1 u1 # comments p))
     \<and> fst (add_comment pid uid2 txt2 id2 t2 (snd (add_comment pid uid1 txt1 id1 t1 s)))
           = Response 200 (CommentsJson
               (newComment uid2 txt2 id2 t2 u2 # newComment uid1 txt1 id1 t1 u1 # comments p))
     \<and> findById (posts (snd (add_comment pid uid2 txt2 id2 t2
                                (snd (add_comment pid uid1 txt1 id1 t1 s))))) pid
           = Inr (Some (k, p\<lparr>comments :=
               newComment uid2 txt2 id2 t2 u2 # newComment uid1 txt1 id1 t1 u1 # comments p\<rparr>))"
proof -
  let ?c1 = "newComment uid1 txt1 id1 t1 u1" and ?c2 = "newComment uid2 txt2 id2 t2 u2"
  let ?p1 = "p\<lparr>comments := ?c1 # comments p\<rparr>"
  let ?p2 = "p\<lparr>comments := ?c2 # ?c1 # comments p\<rparr>"
  from assms(1) have cast: "castObjectId pid = Some k" by (simp add: findById_Some)
  have one: "add_comment pid uid1 txt1 id1 t1 s
      = (Response 200 (CommentsJson (?c1 # comments p)), save (k, ?p1) s)"
    using assms(1,2,4) by (simp add: add_comment_def add_comment_try_def unshift_def Let_def)
  have found: "findById (posts (save (k, ?p1) s)) pid = Inr (Some (k, ?p1))"
    using cast by (rule findById_save)
  have usr: "findById (users (save (k, ?p1) s)) uid2 = Inr (Some (k2, u2))"
    using assms(3) by (simp add: save_def)
  have two: "add_comment pid uid2 txt2 id2 t2 (save (k, ?p1) s)
      = (Response 200 (CommentsJson (?c2 # ?c1 # comments p)), save (k, ?p2) (save (k, ?p1) s))"
    using found usr assms(5)
    by (simp add: add_comment_def add_comment_try_def unshift_def Let_def)
  have "findById (posts (save (k, ?p2) (save (k, ?p1) s))) pid = Inr (Some (k, ?p2))"
    using cast by (rule findById_save)
  with one two show ?thesis by simp
qed

theorem add_comment_prepends_witness:
  "findById (posts db1) post1 = Inr (Some (post1, hello))
   \<and> findById (users db1) ann = Inr (Some (ann, \<lparr>user_name = ''Ann'', user_avatar = ''a.png''\<rparr>))
   \<and> findById (users db1) bob = Inr (Some (bob, \<lparr>user_name = ''Bob'', user_avatar = ''b.png''\<rparr>))
   \<and> ''one'' \<noteq> [] \<and> ''two'' \<noteq> []
   \<and> fst (add_comment post1 bob ''two'' cid2 8
            (snd (add_comment post1 ann ''one'' cid1 7 db1)))
       = Response 200 (CommentsJson
           [\<lparr>comment_id = cid2, comment_user = bob, comment_text = ''two'',
             comment_name = ''Bob'', comment_avatar = ''b.png'', comment_date = 8\<rparr>,
            \<lparr>comment_id = cid1, comment_user = ann, comment_text = ''one'',
             comment_name = ''Ann'', comment_avatar = ''a.png'', comment_date = 7\<rparr>,
            newer, older])"
proof -
  have a: "findById (posts db1) post1 = Inr (Some (post1, hello))" by (rule db1_lookups)
  have b: "findById (users db1) ann
      = Inr (Some (ann, \<lparr>user_name = ''Ann'', user_avatar = ''a.png''\<rparr>))"
    by (rule db1_lookups)
  have c: "findById (users db1) bob
      = Inr (Some (bob, \<lparr>user_name = ''Bob'', user_avatar = ''b.png''\<rparr>))"
    by (rule db1_lookups)
  have d: "''one'' \<noteq> []" and e: "''two'' \<noteq> []" by simp_all
  have f: "comments hello = [newer, older]" by (simp add: hello_def)
  from a b c add_comment_prepends [OF a b c d e, of cid1 7 cid2 8]
  show ?thesis by (simp add: f newComment_def)
qed

subsection \<open>The scenario of the specification\<close>

text \<open>
  A user creates a post; another user likes it, likes it again (400), and takes the like
  back; the other user may not delete the post (401), its author may, and the post is
  gone afterwards (404).
\<close>

lemma scenario:
  "create_post ann ''hello'' post1 1 \<lparr>posts = Map.empty, users = people\<rparr>
     = (Response 200 (PostJson (post1, hello\<lparr>comments := []\<rparr>)),
        \<lparr>posts = [post1 \<mapsto> hello\<lparr>comments := []\<rparr>], users = people\<rparr>)"
  "like post1 bob \<lparr>posts = [post1 \<mapsto> hello\<lparr>comments := []\<rparr>], users = people\<rparr>
     = (Response 200 (LikesJson [\<lparr>like_user = bob\<rparr>]),
        \<lparr>posts = [post1 \<mapsto> hello\<lparr>comments := [], likes := [\<lparr>like_user = bob\<rparr>]\<rparr>],
         users = people\<rparr>)"
  "like post1 bob
      \<lparr>posts = [post1 \<mapsto> hello\<lparr>comments := [], likes := [\<lparr>like_user = bob\<rparr>]\<rparr>],
       users = people\<rparr>
     = (Response 400 (Msg ''Post already liked''),
        \<lparr>posts = [post1 \<mapsto> hello\<lparr>comments := [], likes := [\<lparr>like_user = bob\<rparr>]\<rparr>],
         users = people\<rparr>)"
  "unlike post1 bob
      \<lparr>posts = [post1 \<mapsto> hello\<lparr>comments := [], likes := [\<lparr>like_user = bob\<rparr>]\<rparr>],
       users = people\<rparr>
     = (Response 200 (LikesJson []),
        \<lparr>posts = [post1 \<mapsto> hello\<lparr>comments := []\<rparr>], users = people\<rparr>)"
  "delete_post post1 bob \<lparr>posts = [post1 \<mapsto> hello\<lparr>comments := []\<rparr>], users = people\<rparr>
     = (Response 401 (Msg ''User not authorized''),
        \<lparr>posts = [post1 \<mapsto> hello\<lparr>comments := []\<rparr>], users = people\<rparr>)"
  "delete_post post1 ann \<lparr>posts = [post1 \<mapsto> hello\<lparr>comments := []\<rparr>], users = people\<rparr>
     = (Response 200 (Msg ''Post removed''), \<lparr>posts = Map.empty, users = people\<rparr>)"
  "get_post post1 \<lparr>posts = Map.empty, users = people\<rparr>
     = (Response 404 (Msg ''Post not found''), \<lparr>posts = Map.empty, users = people\<rparr>)"
  by (simp_all add: create_post_def create_try_def insert_post_def like_def like_try_def
      unlike_def unlike_try_def delete_post_def delete_try_def get_post_def get_try_def
      save_def remove_def unshift_def splice_js_head postNotFound_def Let_def
      findById_def cast_examples people_def hello_def)
     (simp_all add: ann_def bob_def)

subsection \<open>What a successful like or comment request changes\<close>

lemma like_frame:
  assumes "succeeded (fst (like pid uid s))"
  shows "\<exists>k p ls. findById (posts s) pid = Inr (Some (k, p))
           \<and> snd (like pid uid s) = s\<lparr>posts := (posts s)(k \<mapsto> p\<lparr>likes := ls\<rparr>)\<rparr>"
proof (cases "findById (posts s) pid")
  case (Inl e)
  with assms show ?thesis by (simp add: like_def like_try_def serverError_def)
next
  case (Inr m)
  show ?thesis
  proof (cases m)
    case None
    with Inr assms show ?thesis by (simp add: like_def like_try_def serverError_def)
  next
    case (Some d)
    obtain k p where d: "d = (k, p)" by (cases d)
    show ?thesis
    proof (cases "0 < length (filter (\<lambda>l. like_user l = uid) (likes p))")
      case True
      with Inr Some d assms show ?thesis by (simp add: like_def like_try_def)
    next
      case False
      with Inr Some d have "snd (like pid uid s)
          = s\<lparr>posts := (posts s)(k \<mapsto> p\<lparr>likes := unshift \<lparr>like_user = uid\<rparr> (likes p)\<rparr>)\<rparr>"
        by (simp add: like_def like_try_def Let_def save_def)
      with Inr Some d show ?thesis by blast
    qed
  qed
qed

lemma unlike_frame:
  assumes "succeeded (fst (unlike pid uid s))"
  shows "\<exists>k p ls. findById (posts s) pid = Inr (Some (k, p))
           \<and> snd (unlike pid uid s) = s\<lparr>posts := (posts s)(k \<mapsto> p\<lparr>likes := ls\<rparr>)\<rparr>"
proof (cases "findById (posts s) pid")
  case (Inl e)
  with assms show ?thesis by (simp add: unlike_def unlike_try_def serverError_def)
next
  case (Inr m)
  show ?thesis
  proof (cases m)
    case None
    with Inr assms show ?thesis by (simp add: unlike_def unlike_try_def serverError_def)
  next
    case (Some d)
    obtain k p where d: "d = (k, p)" by (cases d)
    show ?thesis
    proof (cases "length (filter (\<lambda>l. like_user l = uid) (likes p)) = 0")
      case True
      with Inr Some d assms show ?thesis by (simp add: unlike_def unlike_try_def)
    next
      case False
      with Inr Some d have "snd (unlike pid uid s)
          = s\<lparr>posts := (posts s)(k \<mapsto>
                p\<lparr>likes := splice_js (indexOf (map like_user (likes p)) uid) 1 (likes p)\<rparr>)\<rparr>"
        by (simp add: unlike_def unlike_try_def Let_def save_def)
      with Inr Some d show ?thesis by blast
    qed
  qed
qed

lemma add_comment_frame:
  assumes "succeeded (fst (add_comment pid uid txt new_id now s))"
  shows "\<exists>k p cs. findById (posts s) pid = Inr (Some (k, p))
           \<and> snd (add_comment pid uid txt new_id now s)
               = s\<lparr>posts := (posts s)(k \<mapsto> p\<lparr>comments := cs\<rparr>)\<rparr>"
proof -
  from assms have nonempty: "txt \<noteq> []"
    by (auto simp: add_comment_def)
  from assms nonempty obtain r where r: "add_comment_try pid uid txt new_id now s = Inr r"
    by (cases "add_comment_try pid uid txt new_id now s")
       (simp_all add: add_comment_def serverError_def)
  then obtain k p k' u where p: "findById (posts s) pid = Inr (Some (k, p))"
    and u: "findById (users s) uid = Inr (Some (k', u))"
    by (auto simp: add_comment_try_def split: sum.splits option.splits)
  from p u nonempty have "snd (add_comment pid uid txt new_id now s)
      = s\<lparr>posts := (posts s)(k \<mapsto>
            p\<lparr>comments := unshift (newComment uid txt new_id now u) (comments p)\<rparr>)\<rparr>"
    by (simp add: add_comment_def add_comment_try_def Let_def save_def)
  with p show ?thesis by blast
qed

lemma delete_comment_frame:
  assumes "succeeded (fst (delete_comment pid cid uid s))"
  shows "\<exists>k p cs. findById (posts s) pid = Inr (Some (k, p))
           \<and> snd (delete_comment pid cid uid s)
               = s\<lparr>posts := (posts s)(k \<mapsto> p\<lparr>comments := cs\<rparr>)\<rparr>"
proof -
  from assms obtain r where r: "delete_comment_try pid cid uid s = Inr r"
    by (cases "delete_comment_try pid cid uid s") (simp_all add: delete_comment_def)
  then obtain k p where p: "findById (posts s) pid = Inr (Some (k, p))"
    by (auto simp: delete_comment_try_def split: sum.splits option.splits)
  from assms p obtain c where c: "find (\<lambda>c. comment_id c = cid) (comments p) = Some c"
    and own: "comment_user c = uid"
    by (auto simp: delete_comment_def delete_comment_try_def split: option.splits if_splits)
  from p c own have "snd (delete_comment pid cid uid s)
      = s\<lparr>posts := (posts s)(k \<mapsto>
            p\<lparr>comments := splice_js (indexOf (map comment_user (comments p)) uid) 1
                               (comments p)\<rparr>)\<rparr>"
    by (simp add: delete_comment_def delete_comment_try_def Let_def save_def)
  with p show ?thesis by blast
qed

lemma db2_runs:
  "fst (like post1 ann db2) = Response 200 (LikesJson [\<lparr>like_user = ann\<rparr>, \<lparr>like_user = bob\<rparr>])"
  "fst (unlike post1 bob db2) = Response 200 (LikesJson [])"
  "fst (add_comment post1 ann ''one'' cid1 7 db2)
     = Response 200 (CommentsJson [newComment ann ''one'' cid1 7
           \<lparr>user_name = ''Ann'', user_avatar = ''a.png''\<rparr>, newer, older])"
  "fst (delete_comment post1 cid2 bob db2) = Response 200 (CommentsJson [older])"
     apply (simp add: like_def like_try_def db2_lookups unshift_def Let_def hello_def ann_def bob_def)
    apply (simp add: unlike_def unlike_try_def db2_lookups Let_def hello_def splice_js_head)
   apply (simp add: add_comment_def add_comment_try_def db2_lookups unshift_def Let_def hello_def)
  apply (simp add: delete_comment_def delete_comment_try_def db2_lookups Let_def hello_def
      newer_def older_def splice_js_head cid1_def cid2_def)
  done

text \<open>
  C10: a like or an unlike that succeeds changes the store only at the post of the
  request, and there only the likes (text, author fields, comments and date are as
  before); an add_comment or a delete_comment that succeeds changes only the comments of
  that post. Every other post, and the users, are as before.
\<close>

theorem handlers_frame:
  "(succeeded (fst (like pid uid s)) \<longrightarrow>
      (\<exists>k p ls. findById (posts s) pid = Inr (Some (k, p))
         \<and> snd (like pid uid s) = s\<lparr>posts := (posts s)(k \<mapsto> p\<lparr>likes := ls\<rparr>)\<rparr>))
   \<and> (succeeded (fst (unlike pid uid' s)) \<longrightarrow>
      (\<exists>k p ls. findById (posts s) pid = Inr (Some (k, p))
         \<and> snd (unlike pid uid' s) = s\<lparr>posts := (posts s)(k \<mapsto> p\<lparr>likes := ls\<rparr>)\<rparr>))
   \<and> (succeeded (fst (add_comment pid uid txt new_id now s)) \<longrightarrow>
      (\<exists>k p cs. findById (posts s) pid = Inr (Some (k, p))
         \<and> snd (add_comment pid uid txt new_id now s)
             = s\<lparr>posts := (posts s)(k \<mapsto> p\<lparr>comments := cs\<rparr>)\<rparr>))
   \<and> (succeeded (fst (delete_comment pid cid uid' s)) \<longrightarrow>
      (\<exists>k p cs. findById (posts s) pid = Inr (Some (k, p))
         \<and> snd (delete_comment pid cid uid' s)
             = s\<lparr>posts := (posts s)(k \<mapsto> p\<lparr>comments := cs\<rparr>)\<rparr>))"
  using like_frame unlike_frame add_comment_frame delete_comment_frame by blast

theorem handlers_frame_witness:
  "succeeded (fst (like post1 ann db2)) \<and> succeeded (fst (unlike post1 bob db2))
   \<and> succeeded (fst (add_comment post1 ann ''one'' cid1 7 db2))
   \<and> succeeded (fst (delete_comment post1 cid2 bob db2))
   \<and> (\<exists>k p ls. findById (posts db2) post1 = Inr (Some (k, p))
         \<and> snd (like post1 ann db2) = db2\<lparr>posts := (posts db2)(k \<mapsto> p\<lparr>likes := ls\<rparr>)\<rparr>)
   \<and> (\<exists>k p ls. findById (posts db2) post1 = Inr (Some (k, p))
         \<and> snd (unlike post1 bob db2) = db2\<lparr>posts := (posts db2)(k \<mapsto> p\<lparr>likes := ls\<rparr>)\<rparr>)
   \<and> (\<exists>k p cs. findById (posts db2) post1 = Inr (Some (k, p))
         \<and> snd (add_comment post1 ann ''one'' cid1 7 db2)
             = db2\<lparr>posts := (posts db2)(k \<mapsto> p\<lparr>comments := cs\<rparr>)\<rparr>)
   \<and> (\<exists>k p cs. findById (posts db2) post1 = Inr (Some (k, p))
         \<and> snd (delete_comment post1 cid2 bob db2)
             = db2\<lparr>posts := (posts db2)(k \<mapsto> p\<lparr>comments := cs\<rparr>)\<rparr>)"
  using handlers_frame [of post1 ann db2 bob "''one''" cid1 7 cid2]
  by (simp add: db2_runs)

subsection \<open>At most one like of a user\<close>

lemma likes_unique_save:
  "likes_unique s \<Longrightarrow> distinct (map like_user (likes p)) \<Longrightarrow> likes_unique (save (k, p) s)"
  by (simp add: likes_unique_def save_def)

lemma likes_unique_remove: "likes_unique s \<Longrightarrow> likes_unique (remove d s)"
  by (simp add: likes_unique_def remove_def)

lemma likes_unique_found:
  "likes_unique s \<Longrightarrow> findById (posts s) pid = Inr (Some (k, p)) \<Longrightarrow>
   distinct (map like_user (likes p))"
  by (auto simp: likes_unique_def findById_Some)

lemma create_post_likes_unique:
  assumes "likes_unique s"
  shows "likes_unique (snd (create_post uid txt new_id now s))"
  using assms
  by (auto simp: create_post_def create_try_def insert_post_def Let_def likes_unique_def
      split: sum.splits option.splits if_splits)

lemma like_likes_unique:
  assumes "likes_unique s"
  shows "likes_unique (snd (like pid uid s))"
proof (cases "findById (posts s) pid")
  case (Inl e)
  with assms show ?thesis by (simp add: like_def like_try_def)
next
  case (Inr m)
  show ?thesis
  proof (cases m)
    case None
    with Inr assms show ?thesis by (simp add: like_def like_try_def)
  next
    case (Some d)
    obtain k p where d: "d = (k, p)" by (cases d)
    from assms Inr Some d have dist: "distinct (map like_user (likes p))"
      by (simp add: likes_unique_found)
    show ?thesis
    proof (cases "uid \<in> set (map like_user (likes p))")
      case True
      with Inr Some d have "like pid uid s = (Response 400 (Msg ''Post already liked''), s)"
        by (simp add: like_again)
      with assms show ?thesis by simp
    next
      case False
      with Inr Some d have "snd (like pid uid s)
          = save (k, p\<lparr>likes := \<lparr>like_user = uid\<rparr> # likes p\<rparr>) s"
        by (simp add: like_fresh)
      moreover have "distinct (map like_user (\<lparr>like_user = uid\<rparr> # likes p))"
        using False dist by simp
      ultimately show ?thesis using assms by (simp add: likes_unique_save)
    qed
  qed
qed

lemma unlike_likes_unique:
  assumes "likes_unique s"
  shows "likes_unique (snd (unlike pid uid s))"
proof (cases "succeeded (fst (unlike pid uid s))")
  case False
  then have "snd (unlike pid uid s) = s"
    by (auto simp: unlike_def unlike_try_def Let_def split: sum.splits option.splits if_splits)
  with assms show ?thesis by simp
next
  case True
  then obtain k p where p: "findById (posts s) pid = Inr (Some (k, p))"
    by (auto simp: unlike_def unlike_try_def serverError_def split: sum.splits option.splits)
  from assms p have dist: "distinct (map like_user (likes p))"
    by (rule likes_unique_found)
  from True p have "snd (unlike pid uid s)
      = save (k, p\<lparr>likes := splice_js (indexOf (map like_user (likes p)) uid) 1 (likes p)\<rparr>) s"
    by (auto simp: unlike_def unlike_try_def Let_def split: if_splits)
  with assms dist show ?thesis by (simp add: likes_unique_save splice_js_distinct)
qed

lemma add_comment_likes_unique:
  assumes "likes_unique s"
  shows "likes_unique (snd (add_comment pid uid txt new_id now s))"
proof (cases "succeeded (fst (add_comment pid uid txt new_id now s))")
  case False
  then have "snd (add_comment pid uid txt new_id now s) = s"
    by (auto simp: add_comment_def add_comment_try_def Let_def
        split: sum.splits option.splits if_splits)
  with assms show ?thesis by simp
next
  case True
  then obtain k p cs where p: "findById (posts s) pid = Inr (Some (k, p))"
    and eq: "snd (add_comment pid uid txt new_id now s)
               = s\<lparr>posts := (posts s)(k \<mapsto> p\<lparr>comments := cs\<rparr>)\<rparr>"
    using add_comment_frame by blast
  from assms p have "distinct (map like_user (likes (p\<lparr>comments := cs\<rparr>)))"
    by (simp add: likes_unique_found)
  with assms have "likes_unique (save (k, p\<lparr>comments := cs\<rparr>) s)"
    by (rule likes_unique_save)
  with eq show ?thesis by (simp add: save_def)
qed

lemma delete_comment_likes_unique:
  assumes "likes_unique s"
  shows "likes_unique (snd (delete_comment pid cid uid s))"
proof (cases "succeeded (fst (delete_comment pid cid uid s))")
  case False
  then have "snd (delete_comment pid cid uid s) = s"
    by (auto simp: delete_comment_def delete_comment_try_def Let_def
        split: sum.splits option.splits if_splits)
  with assms show ?thesis by simp
next
  case True
  then obtain k p cs where p: "findById (posts s) pid = Inr (Some (k, p))"
    and eq: "snd (delete_comment pid cid uid s)
               = s\<lparr>posts := (posts s)(k \<mapsto> p\<lparr>comments := cs\<rparr>)\<rparr>"
    using delete_comment_frame by blast
  from assms p have "distinct (map like_user (likes (p\<lparr>comments := cs\<rparr>)))"
    by (simp add: likes_unique_found)
  with assms have "likes_unique (save (k, p\<lparr>comments := cs\<rparr>) s)"
    by (rule likes_unique_save)
  with eq show ?thesis by (simp add: save_def)
qed

lemma delete_post_likes_unique:
  assumes "likes_unique s"
  shows "likes_unique (snd (delete_post pid uid s))"
  using assms
  by (auto simp: delete_post_def delete_try_def likes_unique_remove
      split: sum.splits option.splits if_splits)

lemma get_post_same: "snd (get_post pid s) = s"
  by (auto simp: get_post_def get_try_def split: sum.splits option.splits)

lemma handle_likes_unique: "likes_unique s \<Longrightarrow> likes_unique (snd (handle r s))"
  by (cases r)
     (simp_all add: create_post_likes_unique get_post_same delete_post_likes_unique
        like_likes_unique unlike_likes_unique add_comment_likes_unique
        delete_comment_likes_unique)

lemma exec_likes_unique: "likes_unique s \<Longrightarrow> likes_unique (exec rs s)"
  by (induction rs arbitrary: s) (simp_all add: handle_likes_unique)

lemma db2_unique: "likes_unique db2"
  by (simp add: likes_unique_def db2_def)

text \<open>
  C4: in every state reached from a store without posts by any sequence of requests
  (create, get, delete, like, unlike, add_comment, delete_comment), the likes of every
  post hold at most one entry of each user; and every single request preserves this.
\<close>

theorem likes_unique_invariant:
  "(posts s0 = Map.empty \<longrightarrow> likes_unique (exec rs s0))
   \<and> (likes_unique s \<longrightarrow> likes_unique (snd (handle r s)))"
proof -
  have "posts s0 = Map.empty \<Longrightarrow> likes_unique s0" by (simp add: likes_unique_def)
  then show ?thesis by (simp add: handle_likes_unique exec_likes_unique)
qed

theorem likes_unique_invariant_witness:
  "posts \<lparr>posts = Map.empty, users = people\<rparr> = Map.empty
   \<and> likes_unique (exec [Create ann ''hello'' post1 1, Like post1 bob, Like post1 bob,
                          Like post1 ann, Unlike post1 bob]
                      \<lparr>posts = Map.empty, users = people\<rparr>)
   \<and> likes_unique db2
   \<and> likes_unique (snd (handle (Like post1 ann) db2))"
proof -
  have a: "posts \<lparr>posts = Map.empty, users = people\<rparr> = Map.empty" by simp
  have b: "likes_unique db2" by (rule db2_unique)
  from a b likes_unique_invariant [of "\<lparr>posts = Map.empty, users = people\<rparr>"
      "[Create ann ''hello'' post1 1, Like post1 bob, Like post1 bob,
        Like post1 ann, Unlike post1 bob]" db2 "Like post1 ann"]
  show ?thesis by blast
qed

subsection \<open>Requests the handlers answer otherwise than the specification\<close>

lemma like_no_post:
  "findById (posts s) pid = Inr None \<or> findById (posts s) pid = Inl e \<Longrightarrow>
   like pid uid s = (Response 500 (Text ''Server Error''), s)
   \<and> unlike pid uid s = (Response 500 (Text ''Server Error''), s)"
  by (auto simp: like_def like_try_def unlike_def unlike_try_def serverError_def)

lemma delete_comment_no_post:
  "findById (posts s) pid = Inr None \<or> findById (posts s) pid = Inl e \<Longrightarrow>
   delete_comment pid cid uid s = (Rejected ReferenceError, s)"
  by (auto simp: delete_comment_def delete_comment_try_def)

text \<open>
  What delete_comment removes once the comment was found and belongs to the requester:
  the first comment of the requester in the sequence, whichever id was asked for.
\<close>

lemma delete_comment_effect:
  assumes "findById (posts s) pid = Inr (Some (k, p))"
    and "find (\<lambda>c. comment_id c = cid) (comments p) = Some c"
    and "comment_user c = uid"
  shows "\<exists>i<length (comments p).
           comment_user (comments p ! i) = uid
           \<and> uid \<notin> set (map comment_user (take i (comments p)))
           \<and> delete_comment pid cid uid s
               = (Response 200 (CommentsJson (take i (comments p) @ drop (Suc i) (comments p))),
                  save (k, p\<lparr>comments := take i (comments p) @ drop (Suc i) (comments p)\<rparr>) s)"
proof -
  let ?us = "map comment_user (comments p)"
  let ?i = "nat (indexOf ?us uid)"
  from assms(2) have "c \<in> set (comments p)"
    by (auto simp: find_Some_iff)
  with assms(3) have mem: "uid \<in> set ?us" by auto
  from indexOf_in [OF mem] have lo: "0 \<le> indexOf ?us uid"
    and hi: "indexOf ?us uid < int (length (comments p))" by simp_all
  then have len: "?i < length (comments p)" by simp
  from indexOf_first [OF mem] len have at: "comment_user (comments p ! ?i) = uid"
    and before: "uid \<notin> set (map comment_user (take ?i (comments p)))"
    by (simp_all add: take_map)
  have "splice_js (indexOf ?us uid) 1 (comments p)
      = take ?i (comments p) @ drop (Suc ?i) (comments p)"
    using lo hi by (rule splice_js_one)
  with assms have "delete_comment pid cid uid s
      = (Response 200 (CommentsJson (take ?i (comments p) @ drop (Suc ?i) (comments p))),
         save (k, p\<lparr>comments := take ?i (comments p) @ drop (Suc ?i) (comments p)\<rparr>) s)"
    by (simp add: delete_comment_def delete_comment_try_def Let_def)
  with len at before show ?thesis by blast
qed

text \<open>
  C1 (the code breaks the claim): delete_comment by the author of a comment removes
  exactly the comment whose id was given. At the database below the requester wrote both
  comments of the post and asks for the older one to be deleted; the handler takes the
  index of the first comment of the requester, so the newer comment is removed and the
  one that was to be deleted stays.
\<close>

theorem delete_comment_removes_other:
  "comment_id older = cid1 \<and> comment_id newer \<noteq> cid1
   \<and> fst (delete_comment post1 cid1 bob db1) = Response 200 (CommentsJson [older])
   \<and> findById (posts (snd (delete_comment post1 cid1 bob db1))) post1
       = Inr (Some (post1, hello\<lparr>comments := [older]\<rparr>))"
  by (simp add: delete_comment_def delete_comment_try_def db1_lookups Let_def hello_def
      newer_def older_def splice_js_head cid1_def cid2_def findById_save cast_examples)

text \<open>
  C2 (the code breaks the claim): like and unlike of a post that does not exist, or of a
  malformed id, fail with 404 as get does. Both handlers answer 500 "Server Error" there,
  where get answers 404.
\<close>

theorem like_unlike_missing_post:
  "like post9 bob db1 = (Response 500 (Text ''Server Error''), db1)
   \<and> unlike post9 bob db1 = (Response 500 (Text ''Server Error''), db1)
   \<and> like ''not-an-id'' bob db1 = (Response 500 (Text ''Server Error''), db1)
   \<and> unlike ''not-an-id'' bob db1 = (Response 500 (Text ''Server Error''), db1)
   \<and> get_post post9 db1 = (Response 404 (Msg ''Post not found''), db1)
   \<and> get_post ''not-an-id'' db1 = (Response 404 (Msg ''Post not found''), db1)"
  by (simp add: like_def like_try_def unlike_def unlike_try_def get_post_def get_try_def
      catch_cast_def serverError_def postNotFound_def db1_lookups)

text \<open>
  C3 (the code breaks the claim): delete_comment on a post that does not exist fails with
  404. The handler's promise is rejected with a ReferenceError instead and it sends no
  response, where delete of the same missing post answers 404.
\<close>

theorem delete_comment_missing_post:
  "delete_comment post9 cid1 bob db1 = (Rejected ReferenceError, db1)
   \<and> delete_post post9 bob db1 = (Response 404 (Msg ''Post not found''), db1)"
  by (simp add: delete_comment_def delete_comment_try_def delete_post_def delete_try_def
      postNotFound_def db1_lookups)

end
